theory Spec2Isabelle
  imports Main
begin

unbundle bit_operations_syntax

section \<open>Python dictionaries\<close>

text \<open>
  The resource maps of \<^verbatim>\<open>litex/boards/targets/arty_a7_35.py\<close> are plain Python
  dictionaries from names to integers. A dictionary keeps its keys in insertion order and
  holds every key once, so it is modelled as an association list; the invariant
  \<open>is_dict\<close> says that the keys are distinct.
\<close>

type_synonym pydict = "(string \<times> int) list"

datatype py_error = KeyError string | AttributeError string | OSError | IndexError | ValueError

definition is_dict :: "pydict \<Rightarrow> bool" where
  "is_dict d = distinct (map fst d)"

definition keys :: "pydict \<Rightarrow> string list" where
  "keys d = map fst d"

text \<open>\<^verbatim>\<open>d[k] = v\<close>: an existing key keeps its position, a new key goes to the end.\<close>

fun dict_set :: "pydict \<Rightarrow> string \<Rightarrow> int \<Rightarrow> pydict" where
  "dict_set [] k v = [(k, v)]"
| "dict_set ((k', v') # d) k v =
     (if k' = k then (k', v) # d else (k', v') # dict_set d k v)"

text \<open>\<^verbatim>\<open>d.update(other)\<close>: every item of \<open>other\<close>, in its order, is stored into \<open>d\<close>.\<close>

fun dict_update :: "pydict \<Rightarrow> pydict \<Rightarrow> pydict" where
  "dict_update d [] = d"
| "dict_update d ((k, v) # other) = dict_update (dict_set d k v) other"

text \<open>
  A dictionary display \<^verbatim>\<open>{k1: v1, k2: v2, ...}\<close> stores its items from left to right
  into an empty dictionary; it never raises, whatever keys and values are written.
\<close>

definition dict_literal :: "(string \<times> int) list \<Rightarrow> pydict" where
  "dict_literal items = dict_update [] items"

text \<open>\<^verbatim>\<open>d[k]\<close> raises \<^verbatim>\<open>KeyError\<close> on a missing key.\<close>

definition getitem :: "pydict \<Rightarrow> string \<Rightarrow> py_error + int" where
  "getitem d k = (case map_of d k of None \<Rightarrow> Inl (KeyError k) | Some v \<Rightarrow> Inr v)"

section \<open>The class-level resource maps\<close>

text \<open>
  Every SoC class builds each of its maps with the same two statements,
  \<^verbatim>\<open>m = {...}\<close> followed by \<^verbatim>\<open>m.update(Base.m)\<close>: the class's own entries are
  written first and the base class's effective map is then stored over them.
\<close>

definition class_map :: "(string \<times> int) list \<Rightarrow> pydict \<Rightarrow> pydict" where
  "class_map own base = dict_update (dict_literal own) base"

definition BaseSoC_csr_own :: "(string \<times> int) list" where
  "BaseSoC_csr_own =
     [(''ddrphy'', 16), (''uart_phy0'', 17), (''uart0'', 18),
      (''uart_phy1'', 19), (''uart1'', 20), (''switches'', 21)]"

definition BaseSoC_interrupt_own :: "(string \<times> int) list" where
  "BaseSoC_interrupt_own = [(''uart0'', 3), (''uart1'', 4)]"

definition EthernetSoC_csr_own :: "(string \<times> int) list" where
  "EthernetSoC_csr_own = [(''ethphy'', 22), (''ethmac'', 23)]"

definition EthernetSoC_interrupt_own :: "(string \<times> int) list" where
  "EthernetSoC_interrupt_own = [(''ethmac'', 5)]"

definition EthernetSoC_mem_own :: "(string \<times> int) list" where
  "EthernetSoC_mem_own = [(''ethmac'', 0x30000000)]"

text \<open>
  \<^verbatim>\<open>SoCSDRAM\<close> comes from \<^verbatim>\<open>litex.soc.integration.soc_sdram\<close>; its maps are parameters.
  \<^verbatim>\<open>BaseSoC\<close> declares no \<^verbatim>\<open>mem_map\<close> of its own: \<^verbatim>\<open>BaseSoC.mem_map\<close> is the one
  it inherits.
\<close>

definition BaseSoC_csr_map :: "pydict \<Rightarrow> pydict" where
  "BaseSoC_csr_map SoCSDRAM_csr_map = class_map BaseSoC_csr_own SoCSDRAM_csr_map"

definition BaseSoC_interrupt_map :: "pydict \<Rightarrow> pydict" where
  "BaseSoC_interrupt_map SoCSDRAM_interrupt_map =
     class_map BaseSoC_interrupt_own SoCSDRAM_interrupt_map"

definition EthernetSoC_csr_map :: "pydict \<Rightarrow> pydict" where
  "EthernetSoC_csr_map SoCSDRAM_csr_map =
     class_map EthernetSoC_csr_own (BaseSoC_csr_map SoCSDRAM_csr_map)"

definition EthernetSoC_interrupt_map :: "pydict \<Rightarrow> pydict" where
  "EthernetSoC_interrupt_map SoCSDRAM_interrupt_map =
     class_map EthernetSoC_interrupt_own (BaseSoC_interrupt_map SoCSDRAM_interrupt_map)"

definition EthernetSoC_mem_map :: "pydict \<Rightarrow> pydict" where
  "EthernetSoC_mem_map SoCSDRAM_mem_map = class_map EthernetSoC_mem_own SoCSDRAM_mem_map"

section \<open>The USB-Blaster programmer\<close>

text \<open>
  \<^verbatim>\<open>litex/build/altera/programmer.py\<close>. A programmer object holds the cable name and
  the device index given to \<^verbatim>\<open>__init__\<close> (defaults \<^verbatim>\<open>"USB-Blaster"\<close> and 1).
\<close>

record USBBlaster =
  cable_name :: string
  device_id :: int

definition needs_bitreverse :: bool where
  "needs_bitreverse = False"

definition USBBlaster_init :: "string \<Rightarrow> int \<Rightarrow> USBBlaster" where
  "USBBlaster_init cable device = \<lparr>cable_name = cable, device_id = device\<rparr>"

definition USBBlaster_default :: USBBlaster where
  "USBBlaster_default = USBBlaster_init ''USB-Blaster'' 1"

text \<open>\<^verbatim>\<open>str\<close> of an integer: its decimal digits, with a minus sign when negative.\<close>

definition digit_char :: "nat \<Rightarrow> char" where
  "digit_char n = char_of (48 + n)"

fun str_nat :: "nat \<Rightarrow> string" where
  "str_nat n = (if n < 10 then [digit_char n] else str_nat (n div 10) @ [digit_char (n mod 10)])"

declare str_nat.simps [simp del]

definition str_int :: "int \<Rightarrow> string" where
  "str_int i = (if i < 0 then CHR ''-'' # str_nat (nat (- i)) else str_nat (nat i))"

text \<open>
  \<^verbatim>\<open>fmt.format(*args)\<close> for format strings whose replacement fields are all the
  automatic field \<^verbatim>\<open>{}\<close>: literal text is copied, \<^verbatim>\<open>{{\<close> and \<^verbatim>\<open>}}\<close> stand for one
  brace, and each \<^verbatim>\<open>{}\<close> takes the next argument, already converted to a string. Too few
  arguments raise \<^verbatim>\<open>IndexError\<close>, a lone brace raises \<^verbatim>\<open>ValueError\<close>. Fields with a
  name, a conversion or a format specification are outside this model (\<open>NotModelled\<close>).
\<close>

datatype fmt_error = PyError py_error | NotModelled

fun py_format :: "string \<Rightarrow> string list \<Rightarrow> fmt_error + string" where
  "py_format [] args = Inr []"
| "py_format (c # cs) args =
     (if c = CHR ''{'' then
        (case cs of
           [] \<Rightarrow> Inl (PyError ValueError)
         | c' # cs' \<Rightarrow>
             if c' = CHR ''}'' then
               (case args of
                  [] \<Rightarrow> Inl (PyError IndexError)
                | a # rest \<Rightarrow> map_sum id ((@) a) (py_format cs' rest))
             else if c' = CHR ''{'' then map_sum id ((#) c) (py_format cs' args)
             else Inl NotModelled)
      else if c = CHR ''}'' then
        (case cs of
           [] \<Rightarrow> Inl (PyError ValueError)
         | c' # cs' \<Rightarrow>
             if c' = CHR ''}'' then map_sum id ((#) c) (py_format cs' args)
             else Inl (PyError ValueError))
      else map_sum id ((#) c) (py_format cs args))"

text \<open>
  The two format strings of \<^verbatim>\<open>load_bitstream\<close>. The second one is written here in
  two pieces; it is the single literal made of \<^verbatim>\<open>p;{}\<close>, an at sign and \<^verbatim>\<open>{}\<close>.
\<close>

definition cable_format :: string where
  "cable_format = ''{}{}''"

definition operation_format :: string where
  "operation_format = ''p;{}@'' @ ''{}''"

text \<open>
  \<^verbatim>\<open>subprocess.call\<close> first checks its arguments: an argument that holds a NUL
  character raises \<^verbatim>\<open>ValueError\<close> (embedded null byte) and no process is started. Only
  then is the operating system asked to run the command line. The operating system is a
  parameter: it either cannot start the process, or the process exits with a code, or it
  never exits. \<^verbatim>\<open>subprocess.call\<close> raises \<^verbatim>\<open>OSError\<close> in the first case, returns the
  exit code in the second and blocks in the third.
\<close>

definition has_nul :: "string \<Rightarrow> bool" where
  "has_nul a = (CHR 0x00 \<in> set a)"

datatype proc_result = CannotStart | Exits int | NeverExits

datatype 'a outcome = Raises py_error | Returns 'a | Blocks

definition subprocess_call :: "(string list \<Rightarrow> proc_result) \<Rightarrow> string list \<Rightarrow> int outcome" where
  "subprocess_call os argv =
     (if list_ex has_nul argv then Raises ValueError
      else case os argv of
             CannotStart \<Rightarrow> Raises OSError
           | Exits rc \<Rightarrow> Returns rc
           | NeverExits \<Rightarrow> Blocks)"

text \<open>
  \<^verbatim>\<open>load_bitstream\<close> builds the command line and calls \<^verbatim>\<open>subprocess.call\<close> as a
  statement: the exit code is dropped and the method returns \<^verbatim>\<open>None\<close>. An error
  of \<open>py_format\<close> ends the call before \<^verbatim>\<open>subprocess.call\<close> is reached (\<open>Inl\<close>). The
  second component is the list of command lines passed to \<^verbatim>\<open>subprocess.call\<close> so far.
\<close>

definition load_bitstream ::
  "(string list \<Rightarrow> proc_result) \<Rightarrow> USBBlaster \<Rightarrow> string \<Rightarrow> string \<Rightarrow>
   string list list \<Rightarrow> (fmt_error + unit outcome) \<times> string list list" where
  "load_bitstream os self bitstream_file cable_suffix invoked =
     (case py_format cable_format [cable_name self, cable_suffix] of
        Inl e \<Rightarrow> (Inl e, invoked)
      | Inr cable \<Rightarrow>
          (case py_format operation_format [bitstream_file, str_int (device_id self)] of
             Inl e \<Rightarrow> (Inl e, invoked)
           | Inr operation \<Rightarrow>
               (let argv = [''quartus_pgm'', ''-m'', ''jtag'', ''-c'', cable, ''-o'', operation]
                in (case subprocess_call os argv of
                      Raises e \<Rightarrow> (Inr (Raises e), invoked @ [argv])
                    | Returns rc \<Rightarrow> (Inr (Returns ()), invoked @ [argv])
                    | Blocks \<Rightarrow> (Inr Blocks, invoked @ [argv])))))"

section \<open>Clock and reset generation\<close>

text \<open>
  \<^verbatim>\<open>_CRG.__init__\<close> creates four clock domains, one PLL with \<^verbatim>\<open>clk100\<close> as its
  input, and one PLL output per domain. The record keeps what has been declared so far:
  the domains with their \<^verbatim>\<open>reset_less\<close> flag, the PLL's input (pin and frequency in
  Hz) and the PLL's outputs (domain, frequency in Hz, phase in degrees), each in the
  order of the calls. The float literals \<^verbatim>\<open>100e6\<close> and \<^verbatim>\<open>200e6\<close> are the integers
  \<open>100000000\<close> and \<open>200000000\<close> exactly.
\<close>

record crg =
  clock_domains :: "(string \<times> bool) list"
  pll_speedgrade :: int
  pll_clkin :: "(string \<times> int) option"
  pll_clkouts :: "(string \<times> int \<times> int) list"

datatype clock_error = ClockConfigError

definition bind_sum :: "'e + 'a \<Rightarrow> ('a \<Rightarrow> 'e + 'b) \<Rightarrow> 'e + 'b" where
  "bind_sum r f = (case r of Inl e \<Rightarrow> Inl e | Inr x \<Rightarrow> f x)"

text \<open>
  \<^verbatim>\<open>self.clock_domains.<name> = ClockDomain(reset_less=...)\<close> declares a domain.
\<close>

definition ClockDomain :: "string \<Rightarrow> bool \<Rightarrow> crg \<Rightarrow> crg" where
  "ClockDomain name rl g = g\<lparr>clock_domains := clock_domains g @ [(name, rl)]\<rparr>"

text \<open>
  Modelled from the spec: the constructor \<^verbatim>\<open>S7PLL\<close> of \<^verbatim>\<open>litex.soc.cores.clock\<close>. A new
  PLL records its speed grade and has no input reference and no output yet.
\<close>

definition S7PLL :: "int \<Rightarrow> crg \<Rightarrow> crg" where
  "S7PLL speedgrade g = g\<lparr>pll_speedgrade := speedgrade, pll_clkin := None, pll_clkouts := []\<rparr>"

text \<open>
  Modelled from the spec: \<^verbatim>\<open>S7PLL.register_clkin\<close> of \<^verbatim>\<open>litex.soc.cores.clock\<close> (the
  spec's \<^verbatim>\<open>register_reference\<close>). It records the PLL's one input reference.
\<close>

definition register_clkin :: "string \<Rightarrow> int \<Rightarrow> crg \<Rightarrow> crg" where
  "register_clkin pin freq g = g\<lparr>pll_clkin := Some (pin, freq)\<rparr>"

text \<open>
  Modelled from the spec: \<^verbatim>\<open>S7PLL.create_clkout\<close> of \<^verbatim>\<open>litex.soc.cores.clock\<close> (the
  spec's \<^verbatim>\<open>derive\<close>). It fails with \<^verbatim>\<open>ClockConfigError\<close> when the upstream
  reference does not exist yet, or when the PLL cannot produce the requested frequency and
  phase from its input; what the PLL can produce is the parameter \<open>supports\<close>, applied
  to the input frequency, the requested frequency and the phase. Otherwise the output is
  recorded.
\<close>

definition create_clkout ::
  "(int \<Rightarrow> int \<Rightarrow> int \<Rightarrow> bool) \<Rightarrow> string \<Rightarrow> int \<Rightarrow> int \<Rightarrow> crg \<Rightarrow> clock_error + crg" where
  "create_clkout supports cd freq phase g =
     (case pll_clkin g of
        None \<Rightarrow> Inl ClockConfigError
      | Some (pin, fin) \<Rightarrow>
          if supports fin freq phase
          then Inr (g\<lparr>pll_clkouts := pll_clkouts g @ [(cd, freq, phase)]\<rparr>)
          else Inl ClockConfigError)"

definition empty_crg :: crg where
  "empty_crg = \<lparr>clock_domains = [], pll_speedgrade = 0, pll_clkin = None, pll_clkouts = []\<rparr>"

text \<open>
  The statements of \<^verbatim>\<open>_CRG.__init__\<close> on clock domains and the PLL, in their order. The
  IDELAY controller and the two buffers that derive the Ethernet reference pin from the
  system clock declare no clock domain and are left out.
\<close>

definition CRG_init :: "(int \<Rightarrow> int \<Rightarrow> int \<Rightarrow> bool) \<Rightarrow> int \<Rightarrow> clock_error + crg" where
  "CRG_init supports sys_clk_freq =
     (let g = ClockDomain ''cd_sys'' False empty_crg;
          g = ClockDomain ''cd_sys4x'' True g;
          g = ClockDomain ''cd_sys4x_dqs'' True g;
          g = ClockDomain ''cd_clk200'' False g;
          g = S7PLL (- 1) g;
          g = register_clkin ''clk100'' 100000000 g
      in bind_sum (create_clkout supports ''cd_sys'' sys_clk_freq 0 g) (\<lambda>g.
         bind_sum (create_clkout supports ''cd_sys4x'' (4 * sys_clk_freq) 0 g) (\<lambda>g.
         bind_sum (create_clkout supports ''cd_sys4x_dqs'' (4 * sys_clk_freq) 90 g) (\<lambda>g.
         create_clkout supports ''cd_clk200'' 200000000 0 g))))"

text \<open>
  The clock graph that a \<open>crg\<close> describes: an edge from the input pin to the PLL, and an
  edge from the PLL to each domain it drives. \<open>upstream\<close> lists the sources of a node,
  one entry per edge.
\<close>

datatype node = Oscillator string | Pll | DomainNode string

definition edges :: "crg \<Rightarrow> (node \<times> node) list" where
  "edges g =
     (case pll_clkin g of None \<Rightarrow> [] | Some (pin, freq) \<Rightarrow> [(Oscillator pin, Pll)]) @
     map (\<lambda>(cd, freq, phase). (Pll, DomainNode cd)) (pll_clkouts g)"

definition upstream :: "crg \<Rightarrow> node \<Rightarrow> node list" where
  "upstream g n = map fst (filter (\<lambda>e. snd e = n) (edges g))"

text \<open>
  The description that the statements of \<^verbatim>\<open>_CRG.__init__\<close> add up to, for a system clock
  of \<open>f\<close> Hz, and the depth of a node below the oscillator.
\<close>

definition arty_crg :: "int \<Rightarrow> crg" where
  "arty_crg f =
     \<lparr>clock_domains =
        [(''cd_sys'', False), (''cd_sys4x'', True), (''cd_sys4x_dqs'', True),
         (''cd_clk200'', False)],
      pll_speedgrade = - 1,
      pll_clkin = Some (''clk100'', 100000000),
      pll_clkouts =
        [(''cd_sys'', f, 0), (''cd_sys4x'', 4 * f, 0), (''cd_sys4x_dqs'', 4 * f, 90),
         (''cd_clk200'', 200000000, 0)]\<rparr>"

fun node_depth :: "node \<Rightarrow> nat" where
  "node_depth (Oscillator pin) = 2"
| "node_depth Pll = 1"
| "node_depth (DomainNode cd) = 0"

section \<open>Building the SoC\<close>

text \<open>
  What \<^verbatim>\<open>BaseSoC.__init__\<close> and \<^verbatim>\<open>EthernetSoC.__init__\<close> register with the SoC, as a
  trace in the order of the statements: every \<^verbatim>\<open>self.submodules.<name> = ...\<close>, and the
  calls of \<^verbatim>\<open>register_sdram\<close>, \<^verbatim>\<open>add_wb_slave\<close> (with the address given to
  \<^verbatim>\<open>mem_decoder\<close> and the component whose bus is attached) and \<^verbatim>\<open>add_memory_region\<close>.
  Pin requests and timing constraints are not part of the trace.
\<close>

datatype event =
  Submodule string
| RegisterSdram string
| AddWbSlave int string
| AddMemoryRegion string int int

definition emit :: "event \<Rightarrow> event list \<Rightarrow> event list" where
  "emit e trace = trace @ [e]"

text \<open>
  \<^verbatim>\<open>SoCSDRAM.__init__\<close>, from \<^verbatim>\<open>litex.soc.integration.soc_sdram\<close>, runs first: the
  trace it leaves is the parameter. The constructors of the components are taken to return.
\<close>

definition BaseSoC_init :: "event list \<Rightarrow> event list" where
  "BaseSoC_init after_SoCSDRAM_init =
     (let t = emit (Submodule ''crg'') after_SoCSDRAM_init;
          t = emit (Submodule ''ddrphy'') t;
          t = emit (RegisterSdram ''ddrphy'') t;
          t = emit (Submodule ''uart_phy0'') t;
          t = emit (Submodule ''uart0'') t;
          t = emit (Submodule ''uart_phy1'') t;
          t = emit (Submodule ''uart1'') t;
          t = emit (Submodule ''leds'') t;
          t = emit (Submodule ''switches'') t;
          t = emit (Submodule ''buttons'') t
      in t)"

text \<open>
  \<^verbatim>\<open>EthernetSoC.__init__\<close> reads \<^verbatim>\<open>self.mem_map["ethmac"]\<close> twice, which raises
  \<^verbatim>\<open>KeyError\<close> when the name is missing, and \<^verbatim>\<open>self.shadow_base\<close>, an attribute set
  by the base classes and so a parameter.
\<close>

definition EthernetSoC_init :: "pydict \<Rightarrow> int \<Rightarrow> event list \<Rightarrow> py_error + event list" where
  "EthernetSoC_init mem_map shadow_base after_SoCSDRAM_init =
     (let t = BaseSoC_init after_SoCSDRAM_init;
          t = emit (Submodule ''ethphy'') t;
          t = emit (Submodule ''ethmac'') t
      in bind_sum (getitem mem_map ''ethmac'') (\<lambda>address.
         let t = emit (AddWbSlave address ''ethmac'') t
         in bind_sum (getitem mem_map ''ethmac'') (\<lambda>origin.
            Inr (emit (AddMemoryRegion ''ethmac'' (origin OR shadow_base) 0x2000) t))))"

subsection \<open>The order of peripheral registration\<close>

text \<open>
  The four groups of the specification's registration order, and the group of each
  registration: the DRAM PHY and the SDRAM controller are the memory controller, the UARTs
  and their PHYs are communication peripherals, LEDs, switches and buttons are GPIO, and the
  Ethernet PHY and MAC with the MAC's bus slave and memory region are the extension.
  The clock generator is no peripheral and has no group.
\<close>

datatype peripheral_group = MemoryController | Communication | Gpio | Extension

fun group_rank :: "peripheral_group \<Rightarrow> nat" where
  "group_rank MemoryController = 0"
| "group_rank Communication = 1"
| "group_rank Gpio = 2"
| "group_rank Extension = 3"

definition group_of_name :: "string \<Rightarrow> peripheral_group option" where
  "group_of_name n =
     (if n \<in> set [''ddrphy''] then Some MemoryController
      else if n \<in> set [''uart_phy0'', ''uart0'', ''uart_phy1'', ''uart1''] then Some Communication
      else if n \<in> set [''leds'', ''switches'', ''buttons''] then Some Gpio
      else if n \<in> set [''ethphy'', ''ethmac''] then Some Extension
      else None)"

fun group_of :: "event \<Rightarrow> peripheral_group option" where
  "group_of (Submodule n) = group_of_name n"
| "group_of (RegisterSdram n) = Some MemoryController"
| "group_of (AddWbSlave a n) = group_of_name n"
| "group_of (AddMemoryRegion n a l) = group_of_name n"

definition groups :: "event list \<Rightarrow> peripheral_group list" where
  "groups trace = List.map_filter group_of trace"

subsection \<open>Memory regions\<close>

text \<open>
  Modelled from the spec: the registry of memory regions and the resolution of an address,
  which \<^verbatim>\<open>add_wb_slave\<close>, \<^verbatim>\<open>mem_decoder\<close> and \<^verbatim>\<open>add_memory_region\<close> of
  \<^verbatim>\<open>litex.soc.integration.soc_core\<close> implement. A MemoryRegion has a name, a base address, a size in bytes and a
  shadow alias address. An address belongs to a region when it lies in the \<open>size\<close> bytes
  from the base or in the \<open>size\<close> bytes from the alias; it resolves to the first
  registered region it belongs to. Registering a region whose primary range intersects
  that of a registered region fails with \<^verbatim>\<open>AddressOverlapError\<close>.
\<close>

record mem_region =
  region_name :: string
  region_base :: int
  region_size :: int
  region_shadow :: int

datatype region_error = AddressOverlapError

definition belongs :: "int \<Rightarrow> mem_region \<Rightarrow> bool" where
  "belongs a r \<longleftrightarrow>
     (region_base r \<le> a \<and> a < region_base r + region_size r) \<or>
     (region_shadow r \<le> a \<and> a < region_shadow r + region_size r)"

definition resolve :: "mem_region list \<Rightarrow> int \<Rightarrow> mem_region option" where
  "resolve regions a = find (belongs a) regions"

definition overlap :: "mem_region \<Rightarrow> mem_region \<Rightarrow> bool" where
  "overlap r r' \<longleftrightarrow>
     region_base r < region_base r' + region_size r' \<and>
     region_base r' < region_base r + region_size r"

definition register_region ::
  "mem_region \<Rightarrow> mem_region list \<Rightarrow> region_error + mem_region list" where
  "register_region r regions =
     (if list_ex (overlap r) regions then Inl AddressOverlapError else Inr (regions @ [r]))"

text \<open>
  Modelled from the spec: the MemoryRegion that a trace describes for a component. Its
  base is the address at which the component's bus slave is decoded, its shadow alias and
  its size are the origin and the length of the component's memory region.
\<close>

fun slave_address :: "string \<Rightarrow> event list \<Rightarrow> int option" where
  "slave_address n [] = None"
| "slave_address n (AddWbSlave a m # t) = (if m = n then Some a else slave_address n t)"
| "slave_address n (e # t) = slave_address n t"

fun region_origin :: "string \<Rightarrow> event list \<Rightarrow> (int \<times> int) option" where
  "region_origin n [] = None"
| "region_origin n (AddMemoryRegion m a l # t) = (if m = n then Some (a, l) else region_origin n t)"
| "region_origin n (e # t) = region_origin n t"

definition region_of :: "string \<Rightarrow> event list \<Rightarrow> mem_region option" where
  "region_of n trace =
     (case slave_address n trace of
        None \<Rightarrow> None
      | Some a \<Rightarrow>
          (case region_origin n trace of
             None \<Rightarrow> None
           | Some (origin, l) \<Rightarrow>
               Some \<lparr>region_name = n, region_base = a, region_size = l, region_shadow = origin\<rparr>))"

text \<open>
  The region of the specification's scenario: \<^verbatim>\<open>ethmac\<close> at base \<open>0x30000000\<close> with
  size \<open>0x2000\<close> and its shadow alias at the base OR-ed with the shadow-base constant.
\<close>

definition ethmac_region :: "int \<Rightarrow> mem_region" where
  "ethmac_region shadow_base =
     \<lparr>region_name = ''ethmac'', region_base = 0x30000000, region_size = 0x2000,
      region_shadow = 0x30000000 OR shadow_base\<rparr>"

section \<open>Class bodies and the objects they create\<close>

text \<open>
  The maps are class attributes that refer to dictionary objects, and \<^verbatim>\<open>update\<close>
  changes an object in place. The store holds the dictionary at every address; the
  addresses below \<open>next_addr\<close> are in use. A class is its method resolution order: the
  namespaces of the class and of its base classes, the class's own first, each binding
  attribute names to addresses.
\<close>

record store =
  objs :: "nat \<Rightarrow> pydict"
  next_addr :: nat

type_synonym namespace = "(string \<times> nat) list"

type_synonym pyclass = "(string \<times> namespace) list"

fun class_getattr :: "pyclass \<Rightarrow> string \<Rightarrow> py_error + nat" where
  "class_getattr [] a = Inl (AttributeError a)"
| "class_getattr ((c, ns) # bases) a =
     (case map_of ns a of Some p \<Rightarrow> Inr p | None \<Rightarrow> class_getattr bases a)"

text \<open>\<^verbatim>\<open>{...}\<close> creates a new object at the next free address.\<close>

definition new_dict :: "(string \<times> int) list \<Rightarrow> store \<Rightarrow> nat \<times> store" where
  "new_dict items s =
     (next_addr s,
      s\<lparr>objs := (objs s)(next_addr s := dict_literal items), next_addr := Suc (next_addr s)\<rparr>)"

text \<open>\<^verbatim>\<open>p.update(q)\<close> on the objects at two addresses.\<close>

definition update_at :: "nat \<Rightarrow> nat \<Rightarrow> store \<Rightarrow> store" where
  "update_at p q s = s\<lparr>objs := (objs s)(p := dict_update (objs s p) (objs s q))\<rparr>"

text \<open>
  The two statements \<^verbatim>\<open>m = {...}\<close> and \<^verbatim>\<open>m.update(Base.m)\<close> of a class body: the
  first binds \<open>m\<close> in the namespace of the class being defined, the second looks \<open>m\<close> up
  in the base class, which raises \<^verbatim>\<open>AttributeError\<close> when no class of its resolution
  order has it.
\<close>

definition map_statements ::
  "string \<Rightarrow> (string \<times> int) list \<Rightarrow> pyclass \<Rightarrow> namespace \<times> store \<Rightarrow>
   py_error + namespace \<times> store" where
  "map_statements m own base_class st =
     (case st of (ns, s) \<Rightarrow>
        (case new_dict own s of (p, s1) \<Rightarrow>
           bind_sum (class_getattr base_class m) (\<lambda>q.
             Inr (ns @ [(m, p)], update_at p q s1))))"

definition BaseSoC_class :: "pyclass \<Rightarrow> store \<Rightarrow> py_error + pyclass \<times> store" where
  "BaseSoC_class SoCSDRAM s =
     bind_sum (map_statements ''csr_map'' BaseSoC_csr_own SoCSDRAM ([], s)) (\<lambda>st.
     bind_sum (map_statements ''interrupt_map'' BaseSoC_interrupt_own SoCSDRAM st) (\<lambda>st.
       case st of (ns, s') \<Rightarrow> Inr ((''BaseSoC'', ns) # SoCSDRAM, s')))"

definition EthernetSoC_class :: "pyclass \<Rightarrow> store \<Rightarrow> py_error + pyclass \<times> store" where
  "EthernetSoC_class BaseSoC s =
     bind_sum (map_statements ''csr_map'' EthernetSoC_csr_own BaseSoC ([], s)) (\<lambda>st.
     bind_sum (map_statements ''interrupt_map'' EthernetSoC_interrupt_own BaseSoC st) (\<lambda>st.
     bind_sum (map_statements ''mem_map'' EthernetSoC_mem_own BaseSoC st) (\<lambda>st.
       case st of (ns, s') \<Rightarrow> Inr ((''EthernetSoC'', ns) # BaseSoC, s'))))"

text \<open>
  The store after the class body of \<^verbatim>\<open>EthernetSoC\<close>, when the base class's three
  maps are the objects at \<open>pc\<close>, \<open>pi\<close> and \<open>pm\<close>: three new objects, nothing else.
\<close>

definition EthernetSoC_store :: "nat \<Rightarrow> nat \<Rightarrow> nat \<Rightarrow> store \<Rightarrow> store" where
  "EthernetSoC_store pc pi pm s =
     s\<lparr>objs := (objs s)
          (next_addr s := class_map EthernetSoC_csr_own (objs s pc),
           Suc (next_addr s) := class_map EthernetSoC_interrupt_own (objs s pi),
           Suc (Suc (next_addr s)) := class_map EthernetSoC_mem_own (objs s pm)),
       next_addr := Suc (Suc (Suc (next_addr s)))\<rparr>"

text \<open>
  A small instance: \<^verbatim>\<open>BaseSoC\<close> with its own \<^verbatim>\<open>csr_map\<close> and \<^verbatim>\<open>interrupt_map\<close> at
  addresses 1 and 2, and the \<^verbatim>\<open>mem_map\<close> it inherits at address 0.
\<close>

definition example_BaseSoC :: pyclass where
  "example_BaseSoC =
     [(''BaseSoC'', [(''csr_map'', 1), (''interrupt_map'', 2)]),
      (''SoCSDRAM'', [(''mem_map'', 0)])]"

definition example_store :: store where
  "example_store =
     \<lparr>objs = (\<lambda>a. [])(0 := [(''rom'', 0)], 1 := BaseSoC_csr_own, 2 := BaseSoC_interrupt_own),
      next_addr = 3\<rparr>"

section \<open>Facts about dictionaries\<close>

lemma map_of_dict_set: "map_of (dict_set d k v) = (map_of d)(k \<mapsto> v)"
  by (induction d) auto

lemma keys_dict_set: "set (keys (dict_set d k v)) = insert k (set (keys d))"
proof (induction d)
  case Nil
  then show ?case by (simp add: keys_def)
next
  case (Cons p d)
  obtain k' v' where p: "p = (k', v')" by (cases p)
  show ?case
  proof (cases "k' = k")
    case True
    then show ?thesis by (simp add: p keys_def)
  next
    case False
    then show ?thesis using Cons.IH by (simp add: p keys_def insert_commute)
  qed
qed

lemma is_dict_dict_set: "is_dict d \<Longrightarrow> is_dict (dict_set d k v)"
proof (induction d)
  case Nil
  then show ?case by (simp add: is_dict_def)
next
  case (Cons p d)
  have "set (map fst (dict_set d k v)) = insert k (set (map fst d))"
    using keys_dict_set [of d k v] by (simp add: keys_def)
  with Cons show ?case
    by (cases p) (auto simp: is_dict_def)
qed

lemma length_dict_set:
  "length (dict_set d k v) = (if k \<in> set (keys d) then length d else Suc (length d))"
  by (induction d) (auto simp: keys_def rev_image_eqI)

lemma is_dict_dict_update: "is_dict d \<Longrightarrow> is_dict (dict_update d other)"
  by (induction other arbitrary: d) (auto simp: is_dict_dict_set)

lemma is_dict_dict_literal: "is_dict (dict_literal items)"
proof -
  have "is_dict []" by (simp add: is_dict_def)
  then show ?thesis unfolding dict_literal_def by (rule is_dict_dict_update)
qed

lemma keys_dict_update: "set (keys (dict_update d other)) = set (keys d) \<union> set (keys other)"
proof (induction other arbitrary: d)
  case Nil
  then show ?case by (simp add: keys_def)
next
  case (Cons p other)
  obtain k v where p: "p = (k, v)" by (cases p)
  have "set (keys (dict_update (dict_set d k v) other)) =
        set (keys (dict_set d k v)) \<union> set (keys other)"
    by (rule Cons.IH)
  then show ?case
    by (simp add: p keys_dict_set) (simp add: keys_def)
qed

lemma map_of_dict_update:
  "is_dict other \<Longrightarrow> map_of (dict_update d other) = map_of d ++ map_of other"
proof (induction other arbitrary: d)
  case Nil
  then show ?case by simp
next
  case (Cons p other)
  obtain k v where p: "p = (k, v)" by (cases p)
  from Cons.prems have fresh: "k \<notin> dom (map_of other)" and rest: "is_dict other"
    by (auto simp: p is_dict_def dom_map_of_conv_image_fst)
  have "map_of (dict_update (dict_set d k v) other) = map_of (dict_set d k v) ++ map_of other"
    by (rule Cons.IH [OF rest])
  also have "\<dots> = (map_of d)(k \<mapsto> v) ++ map_of other"
    by (simp only: map_of_dict_set)
  also have "\<dots> = map_of d ++ (map_of other)(k \<mapsto> v)"
  proof
    fix x
    show "((map_of d)(k \<mapsto> v) ++ map_of other) x = (map_of d ++ (map_of other)(k \<mapsto> v)) x"
      using fresh by (auto simp: map_add_def split: option.splits)
  qed
  finally show ?case by (simp only: p dict_update.simps map_of.simps fst_conv snd_conv)
qed

lemma length_dict_update:
  "is_dict other \<Longrightarrow> set (keys d) \<inter> set (keys other) = {} \<Longrightarrow>
   length (dict_update d other) = length d + length other"
proof (induction other arbitrary: d)
  case Nil
  then show ?case by simp
next
  case (Cons p other)
  obtain k v where p: "p = (k, v)" by (cases p)
  from Cons.prems have knew: "k \<notin> set (keys d)" and kfresh: "k \<notin> set (keys other)"
    and rest: "is_dict other" and disj: "set (keys d) \<inter> set (keys other) = {}"
    by (auto simp: p is_dict_def keys_def)
  have "set (keys (dict_set d k v)) \<inter> set (keys other) = {}"
    using disj kfresh by (simp add: keys_dict_set)
  then have "length (dict_update (dict_set d k v) other) = length (dict_set d k v) + length other"
    by (rule Cons.IH [OF rest])
  then show ?case
    using knew by (simp add: p length_dict_set)
qed

lemma dict_literal_distinct: "distinct (map fst items) \<Longrightarrow> dict_literal items = items"
proof -
  have gen: "\<And>d. distinct (map fst (d @ items)) \<Longrightarrow> dict_update d items = d @ items"
  proof (induction items)
    case Nil
    then show ?case by simp
  next
    case (Cons p items)
    obtain k v where p: "p = (k, v)" by (cases p)
    have app: "\<And>e. k \<notin> fst ` set e \<Longrightarrow> dict_set e k v = e @ [(k, v)]"
    proof -
      fix e :: pydict
      show "k \<notin> fst ` set e \<Longrightarrow> dict_set e k v = e @ [(k, v)]"
        by (induction e) auto
    qed
    from Cons.prems have "k \<notin> fst ` set d" by (auto simp: p)
    then have "dict_set d k v = d @ [(k, v)]" by (rule app)
    moreover have "dict_update (d @ [(k, v)]) items = (d @ [(k, v)]) @ items"
      using Cons.prems by (intro Cons.IH) (simp add: p)
    ultimately show ?case by (simp add: p)
  qed
  assume "distinct (map fst items)"
  then show ?thesis using gen [of "[]"] by (simp add: dict_literal_def)
qed

lemma getitem_class_map:
  assumes "is_dict base"
  shows "getitem (class_map own base) n =
         (case map_of base n of Some s \<Rightarrow> Inr s | None \<Rightarrow> getitem (dict_literal own) n)"
proof -
  have "map_of (class_map own base) = map_of (dict_literal own) ++ map_of base"
    unfolding class_map_def using assms by (rule map_of_dict_update)
  then show ?thesis
    by (simp add: getitem_def map_add_def split: option.splits)
qed

lemma map_of_is_dict: "is_dict d \<Longrightarrow> (map_of d n = Some s) = ((n, s) \<in> set d)"
  by (simp add: is_dict_def)

lemma map_of_None_keys: "(map_of d n = None) = (n \<notin> set (keys d))"
  by (simp add: keys_def map_of_eq_None_iff)

section \<open>Merging a class's own entries with its base class's map\<close>

text \<open>
  Claim C1, as amended. When a class writes a name that its base class's effective map
  also holds, \<^verbatim>\<open>m.update(Base.m)\<close> stores the base's entry over the class's own one:
  the name resolves to the base's slot. The merge is a total function, so nothing is
  raised for that name.
\<close>

theorem class_map_base_wins:
  assumes "is_dict base" and "(n, s) \<in> set base"
  shows "getitem (class_map own base) n = Inr s"
proof -
  from assms have "map_of base n = Some s" by (simp add: map_of_is_dict)
  with assms(1) show ?thesis by (simp add: getitem_class_map)
qed

theorem class_map_base_wins_witness:
  "is_dict (BaseSoC_csr_map [(''ethmac'', 7)]) \<and>
   (''ethmac'', 7) \<in> set (BaseSoC_csr_map [(''ethmac'', 7)]) \<and>
   getitem (class_map EthernetSoC_csr_own (BaseSoC_csr_map [(''ethmac'', 7)])) ''ethmac'' = Inr 7"
proof -
  have v: "BaseSoC_csr_map [(''ethmac'', 7)] = BaseSoC_csr_own @ [(''ethmac'', 7)]"
    by (simp add: BaseSoC_csr_map_def class_map_def dict_literal_def BaseSoC_csr_own_def)
  have d: "is_dict (BaseSoC_csr_map [(''ethmac'', 7)])"
    by (simp add: v is_dict_def BaseSoC_csr_own_def)
  have m: "(''ethmac'', 7) \<in> set (BaseSoC_csr_map [(''ethmac'', 7)])"
    by (simp add: v)
  from class_map_base_wins [OF d m, of EthernetSoC_csr_own] d m show ?thesis by blast
qed

text \<open>
  Claim C1 as the specification states it fails. Let \<^verbatim>\<open>SoCSDRAM.csr_map\<close> hold
  \<^verbatim>\<open>ethmac\<close> at slot 7, so that the effective map of \<^verbatim>\<open>BaseSoC\<close> holds it too.
  \<^verbatim>\<open>EthernetSoC\<close> writes \<^verbatim>\<open>ethmac\<close> at slot 23, and its effective map resolves the
  name to 7, the base's slot.
\<close>

theorem override_wins_counterexample:
  "getitem (dict_literal EthernetSoC_csr_own) ''ethmac'' = Inr 23 \<and>
   getitem (BaseSoC_csr_map [(''ethmac'', 7)]) ''ethmac'' = Inr 7 \<and>
   getitem (EthernetSoC_csr_map [(''ethmac'', 7)]) ''ethmac'' = Inr 7"
  by (simp add: getitem_def EthernetSoC_csr_map_def BaseSoC_csr_map_def class_map_def
      dict_literal_def EthernetSoC_csr_own_def BaseSoC_csr_own_def)

text \<open>
  Claim C2. When the class's own names and the base map's names are disjoint, the merged
  map has as many entries as both together, and a name resolves to a slot exactly when
  one of the two layers declares it at that slot.
\<close>

theorem class_map_disjoint:
  assumes "is_dict own" and "is_dict base"
    and "set (keys own) \<inter> set (keys base) = {}"
  shows "length (class_map own base) = length own + length base \<and>
         (\<forall>n s. getitem (class_map own base) n = Inr s \<longleftrightarrow>
                  (n, s) \<in> set own \<or> (n, s) \<in> set base)"
proof -
  have lit: "dict_literal own = own"
    using assms(1) by (simp add: dict_literal_distinct is_dict_def)
  have len: "length (class_map own base) = length own + length base"
    unfolding class_map_def lit using assms(2,3) by (rule length_dict_update)
  have res: "getitem (class_map own base) n = Inr s \<longleftrightarrow>
             (n, s) \<in> set own \<or> (n, s) \<in> set base" for n s
  proof (cases "map_of base n")
    case None
    then have "\<forall>t. (n, t) \<notin> set base"
      using assms(2) by (metis map_of_is_dict option.distinct(1))
    moreover have "getitem (class_map own base) n = getitem own n"
      using None by (simp add: getitem_class_map [OF assms(2)] lit)
    moreover have "getitem own n = Inr s \<longleftrightarrow> (n, s) \<in> set own"
      using map_of_is_dict [OF assms(1), of n s]
      by (auto simp: getitem_def split: option.splits)
    ultimately show ?thesis by simp
  next
    case (Some t)
    then have inb: "(n, t) \<in> set base" using assms(2) by (simp add: map_of_is_dict)
    then have "n \<in> set (keys base)" by (force simp: keys_def)
    with assms(3) have "n \<notin> set (keys own)" by blast
    then have "\<forall>u. (n, u) \<notin> set own" by (force simp: keys_def)
    moreover have "getitem (class_map own base) n = Inr t"
      using Some by (simp add: getitem_class_map [OF assms(2)])
    moreover have "(n, s) \<in> set base \<longleftrightarrow> s = t"
      using Some map_of_is_dict [OF assms(2), of n s] by auto
    ultimately show ?thesis by auto
  qed
  from len res show ?thesis by blast
qed

theorem class_map_disjoint_witness:
  "is_dict EthernetSoC_csr_own \<and> is_dict BaseSoC_csr_own \<and>
   set (keys EthernetSoC_csr_own) \<inter> set (keys BaseSoC_csr_own) = {} \<and>
   length (class_map EthernetSoC_csr_own BaseSoC_csr_own) = 8 \<and>
   getitem (class_map EthernetSoC_csr_own BaseSoC_csr_own) ''ethmac'' = Inr 23 \<and>
   getitem (class_map EthernetSoC_csr_own BaseSoC_csr_own) ''uart0'' = Inr 18"
proof -
  have a: "is_dict EthernetSoC_csr_own"
    by (simp add: is_dict_def EthernetSoC_csr_own_def)
  have b: "is_dict BaseSoC_csr_own"
    by (simp add: is_dict_def BaseSoC_csr_own_def)
  have c: "set (keys EthernetSoC_csr_own) \<inter> set (keys BaseSoC_csr_own) = {}"
    by (simp add: keys_def EthernetSoC_csr_own_def BaseSoC_csr_own_def)
  have e: "(''ethmac'', 23) \<in> set EthernetSoC_csr_own"
    by (simp add: EthernetSoC_csr_own_def)
  have u: "(''uart0'', 18) \<in> set BaseSoC_csr_own"
    by (simp add: BaseSoC_csr_own_def)
  have l: "length EthernetSoC_csr_own + length BaseSoC_csr_own = 8"
    by (simp add: EthernetSoC_csr_own_def BaseSoC_csr_own_def)
  from class_map_disjoint [OF a b c] a b c e u l show ?thesis by simp
qed

section \<open>The CSR maps of the two configurations\<close>

text \<open>
  Claim C3. \<^verbatim>\<open>BaseSoC\<close> declares \<^verbatim>\<open>ddrphy\<close> at 16, \<^verbatim>\<open>uart_phy0\<close> at 17 and
  \<^verbatim>\<open>uart0\<close> at 18. Whatever map \<^verbatim>\<open>SoCSDRAM\<close> hands down, as long as it holds neither
  \<^verbatim>\<open>uart0\<close> nor \<^verbatim>\<open>ethmac\<close>, \<^verbatim>\<open>uart0\<close> resolves to 18 in the base configuration,
  and in the Ethernet configuration \<^verbatim>\<open>ethmac\<close> resolves to 23 and \<^verbatim>\<open>uart0\<close> still
  to 18.
\<close>

theorem csr_scenarios:
  assumes "is_dict SoCSDRAM_csr_map"
    and "''uart0'' \<notin> set (keys SoCSDRAM_csr_map)"
    and "''ethmac'' \<notin> set (keys SoCSDRAM_csr_map)"
  shows "getitem (dict_literal BaseSoC_csr_own) ''ddrphy'' = Inr 16 \<and>
         getitem (dict_literal BaseSoC_csr_own) ''uart_phy0'' = Inr 17 \<and>
         getitem (dict_literal BaseSoC_csr_own) ''uart0'' = Inr 18 \<and>
         getitem (BaseSoC_csr_map SoCSDRAM_csr_map) ''uart0'' = Inr 18 \<and>
         getitem (EthernetSoC_csr_map SoCSDRAM_csr_map) ''ethmac'' = Inr 23 \<and>
         getitem (EthernetSoC_csr_map SoCSDRAM_csr_map) ''uart0'' = Inr 18"
proof -
  have own: "getitem (dict_literal BaseSoC_csr_own) ''ddrphy'' = Inr 16"
    "getitem (dict_literal BaseSoC_csr_own) ''uart_phy0'' = Inr 17"
    "getitem (dict_literal BaseSoC_csr_own) ''uart0'' = Inr 18"
    "getitem (dict_literal BaseSoC_csr_own) ''ethmac'' = Inl (KeyError ''ethmac'')"
    by (simp_all add: getitem_def dict_literal_def BaseSoC_csr_own_def)
  have eth: "getitem (dict_literal EthernetSoC_csr_own) ''ethmac'' = Inr 23"
    by (simp add: getitem_def dict_literal_def EthernetSoC_csr_own_def)
  have no_uart: "map_of SoCSDRAM_csr_map ''uart0'' = None"
    using assms(2) by (simp add: map_of_None_keys)
  have no_eth: "map_of SoCSDRAM_csr_map ''ethmac'' = None"
    using assms(3) by (simp add: map_of_None_keys)
  have base_dict: "is_dict (BaseSoC_csr_map SoCSDRAM_csr_map)"
    unfolding BaseSoC_csr_map_def class_map_def
    by (rule is_dict_dict_update [OF is_dict_dict_literal])
  have base_uart: "getitem (BaseSoC_csr_map SoCSDRAM_csr_map) ''uart0'' = Inr 18"
    unfolding BaseSoC_csr_map_def
    by (simp add: getitem_class_map [OF assms(1)] no_uart own)
  have base_eth:
    "getitem (BaseSoC_csr_map SoCSDRAM_csr_map) ''ethmac'' = Inl (KeyError ''ethmac'')"
    unfolding BaseSoC_csr_map_def
    by (simp add: getitem_class_map [OF assms(1)] no_eth own)
  have m_uart: "map_of (BaseSoC_csr_map SoCSDRAM_csr_map) ''uart0'' = Some 18"
    using base_uart by (simp add: getitem_def split: option.splits)
  have m_eth: "map_of (BaseSoC_csr_map SoCSDRAM_csr_map) ''ethmac'' = None"
    using base_eth by (simp add: getitem_def split: option.splits)
  have eth_eth: "getitem (EthernetSoC_csr_map SoCSDRAM_csr_map) ''ethmac'' = Inr 23"
    unfolding EthernetSoC_csr_map_def
    by (simp add: getitem_class_map [OF base_dict] m_eth eth)
  have eth_uart: "getitem (EthernetSoC_csr_map SoCSDRAM_csr_map) ''uart0'' = Inr 18"
    unfolding EthernetSoC_csr_map_def
    by (simp add: getitem_class_map [OF base_dict] m_uart)
  from own(1-3) base_uart eth_eth eth_uart show ?thesis by simp
qed

theorem csr_scenarios_witness:
  "is_dict [(''sdram'', 8)] \<and> ''uart0'' \<notin> set (keys [(''sdram'', 8)]) \<and>
   ''ethmac'' \<notin> set (keys [(''sdram'', 8)]) \<and>
   getitem (BaseSoC_csr_map [(''sdram'', 8)]) ''uart0'' = Inr 18 \<and>
   getitem (EthernetSoC_csr_map [(''sdram'', 8)]) ''ethmac'' = Inr 23 \<and>
   getitem (EthernetSoC_csr_map [(''sdram'', 8)]) ''uart0'' = Inr 18"
proof -
  have a: "is_dict [(''sdram'', 8)]" by (simp add: is_dict_def)
  have b: "''uart0'' \<notin> set (keys [(''sdram'', 8)])" by (simp add: keys_def)
  have c: "''ethmac'' \<notin> set (keys [(''sdram'', 8)])" by (simp add: keys_def)
  from csr_scenarios [OF a b c] a b c show ?thesis by simp
qed

section \<open>Names and slots within one layer\<close>

text \<open>
  Claim C4, as amended. A layer is a dictionary display, and a display checks nothing
  about the values it stores: two different names written at the same slot are both kept
  and both resolve to that slot. Writing the same name twice at the same slot leaves the
  layer as after the first write.
\<close>

theorem same_slot_in_one_layer:
  "(a \<noteq> b \<longrightarrow>
      getitem (dict_set (dict_set d a s) b s) a = Inr s \<and>
      getitem (dict_set (dict_set d a s) b s) b = Inr s) \<and>
   dict_set (dict_set d a s) a s = dict_set d a s"
proof -
  have idem: "dict_set (dict_set d a s) a s = dict_set d a s"
    by (induction d) auto
  have "getitem (dict_set (dict_set d a s) b s) a = Inr s" if "a \<noteq> b"
    using that by (simp add: getitem_def map_of_dict_set)
  moreover have "getitem (dict_set (dict_set d a s) b s) b = Inr s"
    by (simp add: getitem_def map_of_dict_set)
  ultimately show ?thesis using idem by blast
qed

theorem same_slot_in_one_layer_witness:
  "''uart0'' \<noteq> ''uart1'' \<and>
   getitem (dict_set (dict_set [] ''uart0'' 18) ''uart1'' 18) ''uart0'' = Inr 18 \<and>
   getitem (dict_set (dict_set [] ''uart0'' 18) ''uart1'' 18) ''uart1'' = Inr 18 \<and>
   dict_set (dict_set [] ''uart0'' 18) ''uart0'' 18 = dict_set [] ''uart0'' 18"
  using same_slot_in_one_layer [of "''uart0''" "''uart1''" "[]" 18] by simp

text \<open>
  Claim C4 as the specification states it fails: a layer that writes \<^verbatim>\<open>uart0\<close> and
  \<^verbatim>\<open>uart1\<close> both at slot 18 is built without any error and holds both entries.
\<close>

theorem slot_collision_counterexample:
  "dict_literal [(''uart0'', 18), (''uart1'', 18)] = [(''uart0'', 18), (''uart1'', 18)] \<and>
   getitem (dict_literal [(''uart0'', 18), (''uart1'', 18)]) ''uart0'' = Inr 18 \<and>
   getitem (dict_literal [(''uart0'', 18), (''uart1'', 18)]) ''uart1'' = Inr 18"
  by (simp add: dict_literal_def getitem_def)

section \<open>Programming a device\<close>

lemma cable_argument: "py_format cable_format [a, b] = Inr (a @ b)"
  by (simp add: cable_format_def sum.map_comp comp_def)

lemma operation_argument: "py_format operation_format [f, d] = Inr (''p;'' @ f @ ''@'' @ d)"
  by (simp add: operation_format_def sum.map_comp comp_def)

lemma has_nul_append: "has_nul (a @ b) = (has_nul a \<or> has_nul b)"
  by (auto simp: has_nul_def)

lemma digit_char_not_nul: "n < 10 \<Longrightarrow> digit_char n \<noteq> CHR 0x00"
proof
  assume n: "n < 10" and "digit_char n = CHR 0x00"
  then have "of_char (digit_char n) = (of_char (CHR 0x00) :: nat)" by simp
  then have "(48 + n) mod 256 = 0" by (simp add: digit_char_def)
  with n show False by simp
qed

lemma str_nat_no_nul: "\<not> has_nul (str_nat n)"
proof (induction n rule: str_nat.induct)
  case (1 n)
  show ?case
  proof (cases "n < 10")
    case True
    then show ?thesis
      using digit_char_not_nul [of n] by (simp add: str_nat.simps [of n] has_nul_def)
  next
    case False
    have "n mod 10 < 10" by simp
    then have "digit_char (n mod 10) \<noteq> CHR 0x00" by (rule digit_char_not_nul)
    with False 1 show ?thesis
      by (auto simp: str_nat.simps [of n] has_nul_def)
  qed
qed

lemma str_int_no_nul: "\<not> has_nul (str_int i)"
  using str_nat_no_nul by (auto simp: str_int_def has_nul_def)

lemma argv_has_nul:
  "list_ex has_nul
     [''quartus_pgm'', ''-m'', ''jtag'', ''-c'', cable @ suffix, ''-o'',
      ''p;'' @ path @ ''@'' @ str_int device] =
   (has_nul cable \<or> has_nul suffix \<or> has_nul path)"
proof -
  have fixed: "\<not> has_nul ''quartus_pgm''" "\<not> has_nul ''-m''" "\<not> has_nul ''jtag''"
    "\<not> has_nul ''-c''" "\<not> has_nul ''-o''" "\<not> has_nul ''p;''" "\<not> has_nul ''@''"
    by (simp_all add: has_nul_def)
  show ?thesis
    by (simp only: list_ex_Nil_iff list_ex_Cons_iff has_nul_append fixed str_int_no_nul simp_thms disj_assoc)
qed

text \<open>
  Claim C5. For every bitstream path and cable suffix, \<^verbatim>\<open>load_bitstream\<close> passes
  \<^verbatim>\<open>subprocess.call\<close> exactly one command line: \<^verbatim>\<open>quartus_pgm -m jtag -c\<close>, the cable
  name followed by the suffix, \<^verbatim>\<open>-o\<close>, and \<^verbatim>\<open>p;\<close>, the path, \<^verbatim>\<open>@\<close> and the device
  index.
\<close>

theorem load_bitstream_command_line:
  "snd (load_bitstream os self bitstream_file cable_suffix invoked) =
   invoked @
   [[''quartus_pgm'', ''-m'', ''jtag'', ''-c'', cable_name self @ cable_suffix, ''-o'',
     ''p;'' @ bitstream_file @ ''@'' @ str_int (device_id self)]]"
  by (simp add: load_bitstream_def cable_argument operation_argument Let_def
      split: outcome.splits)

text \<open>
  Claim C6, as amended. \<^verbatim>\<open>load_bitstream\<close> returns \<^verbatim>\<open>None\<close>. When the cable name,
  the suffix or the path holds a NUL character it raises the \<^verbatim>\<open>ValueError\<close> of
  \<^verbatim>\<open>subprocess.call\<close> and no process is started. Otherwise it raises exactly when the
  process cannot be started, and what it raises is the \<^verbatim>\<open>OSError\<close> of
  \<^verbatim>\<open>subprocess.call\<close>; when the process exits, with whatever code, the method returns
  normally and the code is lost; when the process never exits, the method blocks.
\<close>

theorem load_bitstream_outcome:
  "fst (load_bitstream os self bitstream_file cable_suffix invoked) =
   (if has_nul (cable_name self) \<or> has_nul cable_suffix \<or> has_nul bitstream_file
    then Inr (Raises ValueError)
    else
      case os [''quartus_pgm'', ''-m'', ''jtag'', ''-c'', cable_name self @ cable_suffix, ''-o'',
               ''p;'' @ bitstream_file @ ''@'' @ str_int (device_id self)] of
        CannotStart \<Rightarrow> Inr (Raises OSError)
      | Exits rc \<Rightarrow> Inr (Returns ())
      | NeverExits \<Rightarrow> Inr Blocks)"
proof -
  let ?argv = "[''quartus_pgm'', ''-m'', ''jtag'', ''-c'', cable_name self @ cable_suffix, ''-o'',
      ''p;'' @ bitstream_file @ ''@'' @ str_int (device_id self)]"
  have call: "subprocess_call os ?argv =
      (if has_nul (cable_name self) \<or> has_nul cable_suffix \<or> has_nul bitstream_file
       then Raises ValueError
       else case os ?argv of
              CannotStart \<Rightarrow> Raises OSError
            | Exits rc \<Rightarrow> Returns rc
            | NeverExits \<Rightarrow> Blocks)"
    unfolding subprocess_call_def argv_has_nul by (rule refl)
  have "fst (load_bitstream os self bitstream_file cable_suffix invoked) =
      (case subprocess_call os ?argv of
         Raises e \<Rightarrow> Inr (Raises e)
       | Returns rc \<Rightarrow> Inr (Returns ())
       | Blocks \<Rightarrow> Inr Blocks)"
    by (simp add: load_bitstream_def cable_argument operation_argument Let_def
        split: outcome.splits)
  also have "\<dots> =
      (if has_nul (cable_name self) \<or> has_nul cable_suffix \<or> has_nul bitstream_file
       then Inr (Raises ValueError)
       else case os ?argv of
              CannotStart \<Rightarrow> Inr (Raises OSError)
            | Exits rc \<Rightarrow> Inr (Returns ())
            | NeverExits \<Rightarrow> Inr Blocks)"
    unfolding call by (simp split: proc_result.splits)
  finally show ?thesis .
qed

text \<open>
  Claim C6 as the specification states it fails: against a process that exits with
  code 2, \<^verbatim>\<open>load_bitstream\<close> returns \<^verbatim>\<open>None\<close> and raises nothing.
\<close>

theorem exit_code_counterexample:
  "load_bitstream (\<lambda>argv. Exits 2) USBBlaster_default ''top.sof'' [] [] =
   (Inr (Returns ()),
    [[''quartus_pgm'', ''-m'', ''jtag'', ''-c'', ''USB-Blaster'', ''-o'', ''p;top.sof@1'']])"
proof -
  have "str_int 1 = ''1''"
    by code_simp
  then show ?thesis
    by (simp add: load_bitstream_def cable_argument operation_argument Let_def
        subprocess_call_def has_nul_def USBBlaster_default_def USBBlaster_init_def)
qed

text \<open>
  A path with a NUL character: \<^verbatim>\<open>ValueError\<close>, although the process would exit with
  code 0.
\<close>

lemma load_bitstream_nul_path:
  "fst (load_bitstream (\<lambda>argv. Exits 0) USBBlaster_default [CHR ''a'', CHR 0x00] [] []) =
   Inr (Raises ValueError)"
proof -
  have "str_int 1 = ''1''"
    by code_simp
  then show ?thesis
    by (simp add: load_bitstream_def cable_argument operation_argument Let_def
        subprocess_call_def has_nul_def USBBlaster_default_def USBBlaster_init_def)
qed

section \<open>The clock graph\<close>

lemma CRG_init_result:
  "CRG_init supports f =
     (if supports 100000000 f 0 \<and> supports 100000000 (4 * f) 0 \<and>
         supports 100000000 (4 * f) 90 \<and> supports 100000000 200000000 0
      then Inr (arty_crg f) else Inl ClockConfigError)"
  by (simp add: CRG_init_def Let_def bind_sum_def create_clkout_def ClockDomain_def S7PLL_def
      register_clkin_def empty_crg_def arty_crg_def)

lemma edges_arty_crg:
  "edges (arty_crg f) =
     [(Oscillator ''clk100'', Pll), (Pll, DomainNode ''cd_sys''), (Pll, DomainNode ''cd_sys4x''),
      (Pll, DomainNode ''cd_sys4x_dqs''), (Pll, DomainNode ''cd_clk200'')]"
  by (simp add: edges_def arty_crg_def)

lemma acyclic_arty_crg: "acyclic (set (edges (arty_crg f)))"
proof (rule acyclicI_order [where f = node_depth])
  fix a b
  assume "(a, b) \<in> set (edges (arty_crg f))"
  then show "node_depth b < node_depth a"
    by (auto simp: edges_arty_crg)
qed

text \<open>
  Claim C8. In the graph that \<^verbatim>\<open>_CRG.__init__\<close> builds, the clock domains are
  \<^verbatim>\<open>cd_sys\<close>, \<^verbatim>\<open>cd_sys4x\<close>, \<^verbatim>\<open>cd_sys4x_dqs\<close> and \<^verbatim>\<open>cd_clk200\<close>; each of them has
  exactly one upstream source, the PLL; the PLL has exactly one, the oscillator pin
  \<^verbatim>\<open>clk100\<close> at 100 MHz; an oscillator has none; and the graph has no cycle.
\<close>

theorem clock_graph:
  assumes "CRG_init supports sys_clk_freq = Inr g"
  shows "map fst (clock_domains g) = [''cd_sys'', ''cd_sys4x'', ''cd_sys4x_dqs'', ''cd_clk200''] \<and>
         (\<forall>cd \<in> set (map fst (clock_domains g)). upstream g (DomainNode cd) = [Pll]) \<and>
         upstream g Pll = [Oscillator ''clk100''] \<and>
         pll_clkin g = Some (''clk100'', 100000000) \<and>
         (\<forall>pin. upstream g (Oscillator pin) = []) \<and>
         acyclic (set (edges g))"
proof -
  from assms have g: "g = arty_crg sys_clk_freq"
    by (simp add: CRG_init_result split: if_splits)
  have "map fst (clock_domains g) = [''cd_sys'', ''cd_sys4x'', ''cd_sys4x_dqs'', ''cd_clk200'']"
    by (simp add: g arty_crg_def)
  moreover have "\<forall>cd \<in> set (map fst (clock_domains g)). upstream g (DomainNode cd) = [Pll]"
    by (simp add: g upstream_def edges_arty_crg) (simp add: arty_crg_def)
  moreover have "upstream g Pll = [Oscillator ''clk100'']"
    by (simp add: g upstream_def edges_arty_crg)
  moreover have "pll_clkin g = Some (''clk100'', 100000000)"
    by (simp add: g arty_crg_def)
  moreover have "\<forall>pin. upstream g (Oscillator pin) = []"
    by (simp add: g upstream_def edges_arty_crg)
  moreover have "acyclic (set (edges g))"
    unfolding g by (rule acyclic_arty_crg)
  ultimately show ?thesis by blast
qed

theorem clock_graph_witness:
  "CRG_init (\<lambda>fin f phase. True) 100000000 = Inr (arty_crg 100000000) \<and>
   upstream (arty_crg 100000000) (DomainNode ''cd_sys4x_dqs'') = [Pll] \<and>
   upstream (arty_crg 100000000) Pll = [Oscillator ''clk100''] \<and>
   acyclic (set (edges (arty_crg 100000000)))"
proof -
  have run: "CRG_init (\<lambda>fin f phase. True) 100000000 = Inr (arty_crg 100000000)"
    by (simp add: CRG_init_result)
  have "''cd_sys4x_dqs'' \<in> set (map fst (clock_domains (arty_crg 100000000)))"
    by (simp add: arty_crg_def)
  with clock_graph [OF run] run show ?thesis by blast
qed

section \<open>The order of registration\<close>

lemma BaseSoC_init_trace:
  "BaseSoC_init pre =
     pre @ [Submodule ''crg'', Submodule ''ddrphy'', RegisterSdram ''ddrphy'',
            Submodule ''uart_phy0'', Submodule ''uart0'', Submodule ''uart_phy1'',
            Submodule ''uart1'', Submodule ''leds'', Submodule ''switches'',
            Submodule ''buttons'']"
  by (simp add: BaseSoC_init_def emit_def)

lemma EthernetSoC_init_trace:
  "EthernetSoC_init mem_map shadow_base pre =
     (case getitem mem_map ''ethmac'' of
        Inl e \<Rightarrow> Inl e
      | Inr a \<Rightarrow>
          Inr (BaseSoC_init pre @
               [Submodule ''ethphy'', Submodule ''ethmac'', AddWbSlave a ''ethmac'',
                AddMemoryRegion ''ethmac'' (a OR shadow_base) 0x2000]))"
  by (simp add: EthernetSoC_init_def emit_def bind_sum_def Let_def split: sum.splits)

text \<open>
  Claim C9. After whatever \<^verbatim>\<open>SoCSDRAM.__init__\<close> has registered, \<^verbatim>\<open>BaseSoC.__init__\<close>
  registers the clock generator, then the memory controller, then the UARTs, then LEDs,
  switches and buttons; \<^verbatim>\<open>EthernetSoC.__init__\<close> registers all of that first and the
  Ethernet PHY and MAC after it. The groups of the registrations come in the order memory
  controller, communication, GPIO, extension.
\<close>

theorem registration_order:
  assumes "EthernetSoC_init mem_map shadow_base pre = Inr t"
  shows "groups (drop (length pre) (BaseSoC_init pre)) =
           [MemoryController, MemoryController,
            Communication, Communication, Communication, Communication,
            Gpio, Gpio, Gpio] \<and>
         take (length (BaseSoC_init pre)) t = BaseSoC_init pre \<and>
         groups (drop (length pre) t) =
           [MemoryController, MemoryController,
            Communication, Communication, Communication, Communication,
            Gpio, Gpio, Gpio,
            Extension, Extension, Extension, Extension] \<and>
         sorted (map group_rank (groups (drop (length pre) t)))"
proof -
  from assms obtain a where
    t: "t = BaseSoC_init pre @
            [Submodule ''ethphy'', Submodule ''ethmac'', AddWbSlave a ''ethmac'',
             AddMemoryRegion ''ethmac'' (a OR shadow_base) 0x2000]"
    by (auto simp: EthernetSoC_init_trace split: sum.splits)
  have base: "groups (drop (length pre) (BaseSoC_init pre)) =
           [MemoryController, MemoryController,
            Communication, Communication, Communication, Communication,
            Gpio, Gpio, Gpio]"
    by (simp add: BaseSoC_init_trace groups_def group_of_name_def)
  have prefix: "take (length (BaseSoC_init pre)) t = BaseSoC_init pre"
    by (simp add: t)
  have all: "groups (drop (length pre) t) =
           [MemoryController, MemoryController,
            Communication, Communication, Communication, Communication,
            Gpio, Gpio, Gpio,
            Extension, Extension, Extension, Extension]"
    by (simp add: t BaseSoC_init_trace groups_def group_of_name_def)
  have "sorted (map group_rank (groups (drop (length pre) t)))"
    by (simp add: all)
  with base prefix all show ?thesis by blast
qed

theorem registration_order_witness:
  "EthernetSoC_init [(''ethmac'', 0x30000000)] 0x80000000 [Submodule ''cpu''] =
     Inr (BaseSoC_init [Submodule ''cpu''] @
          [Submodule ''ethphy'', Submodule ''ethmac'', AddWbSlave 0x30000000 ''ethmac'',
           AddMemoryRegion ''ethmac'' 0xB0000000 0x2000]) \<and>
   sorted (map group_rank (groups (drop (length [Submodule ''cpu''])
     (BaseSoC_init [Submodule ''cpu''] @
          [Submodule ''ethphy'', Submodule ''ethmac'', AddWbSlave 0x30000000 ''ethmac'',
           AddMemoryRegion ''ethmac'' 0xB0000000 0x2000]))))"
proof -
  have run: "EthernetSoC_init [(''ethmac'', 0x30000000)] 0x80000000 [Submodule ''cpu''] =
     Inr (BaseSoC_init [Submodule ''cpu''] @
          [Submodule ''ethphy'', Submodule ''ethmac'', AddWbSlave 0x30000000 ''ethmac'',
           AddMemoryRegion ''ethmac'' 0xB0000000 0x2000])"
    by (simp add: EthernetSoC_init_trace getitem_def)
  from registration_order [OF run] run show ?thesis by blast
qed

section \<open>The Ethernet MAC's memory region\<close>

lemma slave_address_append:
  "slave_address n (xs @ ys) =
     (case slave_address n xs of None \<Rightarrow> slave_address n ys | Some a \<Rightarrow> Some a)"
  by (induction n xs rule: slave_address.induct) auto

lemma region_origin_append:
  "region_origin n (xs @ ys) =
     (case region_origin n xs of None \<Rightarrow> region_origin n ys | Some a \<Rightarrow> Some a)"
  by (induction n xs rule: region_origin.induct) auto

lemma slave_address_BaseSoC_init:
  "slave_address n (BaseSoC_init pre) = slave_address n pre"
  by (simp add: BaseSoC_init_trace slave_address_append split: option.splits)

lemma region_origin_BaseSoC_init:
  "region_origin n (BaseSoC_init pre) = region_origin n pre"
  by (simp add: BaseSoC_init_trace region_origin_append split: option.splits)

lemma resolve_append:
  "resolve (regions @ [r]) a =
     (case resolve regions a of
        Some r' \<Rightarrow> Some r'
      | None \<Rightarrow> if belongs a r then Some r else None)"
  by (induction regions) (auto simp: resolve_def)

lemma ethmac_mem_map:
  assumes "is_dict M" and "''ethmac'' \<notin> set (keys M)"
  shows "getitem (EthernetSoC_mem_map M) ''ethmac'' = Inr 0x30000000"
proof -
  have none: "map_of M ''ethmac'' = None"
    using assms(2) by (simp add: map_of_None_keys)
  have own: "getitem (dict_literal EthernetSoC_mem_own) ''ethmac'' = Inr 0x30000000"
    by (simp add: getitem_def dict_literal_def EthernetSoC_mem_own_def)
  show ?thesis
    unfolding EthernetSoC_mem_map_def
    by (simp add: getitem_class_map [OF assms(1)] none own)
qed

lemma belongs_ethmac:
  "belongs 0x30000000 (ethmac_region sb)"
  "belongs (0x30000000 OR sb) (ethmac_region sb)"
  by (simp_all add: belongs_def ethmac_region_def)

text \<open>
  Claim C7. When the inherited memory map holds no \<^verbatim>\<open>ethmac\<close> and nothing registered
  before concerns \<^verbatim>\<open>ethmac\<close>, \<^verbatim>\<open>EthernetSoC.__init__\<close> succeeds, and the region its
  trace describes is \<^verbatim>\<open>ethmac\<close> at base \<open>0x30000000\<close> with size \<open>0x2000\<close> and the alias
  \<open>0x30000000 OR shadow_base\<close>. Registered after regions that it does not overlap and
  that hold neither address, it is the region that both the base address and the alias
  resolve to.
\<close>

theorem ethmac_region_registered:
  assumes "is_dict SoCSDRAM_mem_map" and "''ethmac'' \<notin> set (keys SoCSDRAM_mem_map)"
    and "slave_address ''ethmac'' pre = None" and "region_origin ''ethmac'' pre = None"
    and "\<not> list_ex (overlap (ethmac_region shadow_base)) regions"
    and "resolve regions 0x30000000 = None"
    and "resolve regions (0x30000000 OR shadow_base) = None"
  shows "\<exists>t regions'.
           EthernetSoC_init (EthernetSoC_mem_map SoCSDRAM_mem_map) shadow_base pre = Inr t \<and>
           region_of ''ethmac'' t = Some (ethmac_region shadow_base) \<and>
           register_region (ethmac_region shadow_base) regions = Inr regions' \<and>
           resolve regions' 0x30000000 = Some (ethmac_region shadow_base) \<and>
           resolve regions' (0x30000000 OR shadow_base) = Some (ethmac_region shadow_base)"
proof -
  let ?t = "BaseSoC_init pre @
      [Submodule ''ethphy'', Submodule ''ethmac'', AddWbSlave 0x30000000 ''ethmac'',
       AddMemoryRegion ''ethmac'' (0x30000000 OR shadow_base) 0x2000]"
  let ?r = "ethmac_region shadow_base"
  have run: "EthernetSoC_init (EthernetSoC_mem_map SoCSDRAM_mem_map) shadow_base pre = Inr ?t"
    by (simp add: EthernetSoC_init_trace ethmac_mem_map [OF assms(1,2)])
  have sa: "slave_address ''ethmac'' ?t = Some 0x30000000"
    by (simp add: slave_address_append slave_address_BaseSoC_init assms(3))
  have ro: "region_origin ''ethmac'' ?t = Some (0x30000000 OR shadow_base, 0x2000)"
    by (simp add: region_origin_append region_origin_BaseSoC_init assms(4))
  have reg: "region_of ''ethmac'' ?t = Some ?r"
    by (simp add: region_of_def sa ro ethmac_region_def)
  have added: "register_region ?r regions = Inr (regions @ [?r])"
    using assms(5) by (simp add: register_region_def)
  have r1: "resolve (regions @ [?r]) 0x30000000 = Some ?r"
    by (simp add: resolve_append assms(6) belongs_ethmac)
  have r2: "resolve (regions @ [?r]) (0x30000000 OR shadow_base) = Some ?r"
    by (simp add: resolve_append assms(7) belongs_ethmac)
  from run reg added r1 r2 show ?thesis by blast
qed

theorem ethmac_region_registered_witness:
  "is_dict [(''rom'', 0)] \<and> ''ethmac'' \<notin> set (keys [(''rom'', 0)]) \<and>
   slave_address ''ethmac'' [] = None \<and> region_origin ''ethmac'' [] = None \<and>
   \<not> list_ex (overlap (ethmac_region 0x80000000)) [] \<and>
   resolve [] 0x30000000 = None \<and> resolve [] (0x30000000 OR 0x80000000) = None \<and>
   (\<exists>t regions'.
      EthernetSoC_init (EthernetSoC_mem_map [(''rom'', 0)]) 0x80000000 [] = Inr t \<and>
      region_of ''ethmac'' t = Some (ethmac_region 0x80000000) \<and>
      register_region (ethmac_region 0x80000000) [] = Inr regions' \<and>
      resolve regions' 0x30000000 = Some (ethmac_region 0x80000000) \<and>
      resolve regions' (0x30000000 OR 0x80000000) = Some (ethmac_region 0x80000000))"
proof -
  have a: "is_dict [(''rom'', 0)]" by (simp add: is_dict_def)
  have b: "''ethmac'' \<notin> set (keys [(''rom'', 0)])" by (simp add: keys_def)
  have c: "slave_address ''ethmac'' [] = None" by simp
  have d: "region_origin ''ethmac'' [] = None" by simp
  have o: "\<not> list_ex (overlap (ethmac_region 0x80000000)) []" by simp
  have e: "resolve [] 0x30000000 = None" by (simp add: resolve_def)
  have f: "resolve [] (0x30000000 OR 0x80000000) = None" by (simp add: resolve_def)
  from ethmac_region_registered [OF a b c d o e f] a b c d o e f show ?thesis by blast
qed

section \<open>The base class's maps after the derived class is defined\<close>

lemma map_statements_run:
  assumes "class_getattr B m = Inr q" and "q < next_addr s"
  shows "map_statements m own B (ns, s) =
           Inr (ns @ [(m, next_addr s)],
                s\<lparr>objs := (objs s)(next_addr s := class_map own (objs s q)),
                  next_addr := Suc (next_addr s)\<rparr>)"
  using assms
  by (simp add: map_statements_def new_dict_def update_at_def bind_sum_def class_map_def)

lemma EthernetSoC_class_run:
  assumes "class_getattr B ''csr_map'' = Inr pc" and "pc < next_addr s"
    and "class_getattr B ''interrupt_map'' = Inr pi" and "pi < next_addr s"
    and "class_getattr B ''mem_map'' = Inr pm" and "pm < next_addr s"
  shows "EthernetSoC_class B s =
           Inr ((''EthernetSoC'',
                 [(''csr_map'', next_addr s), (''interrupt_map'', Suc (next_addr s)),
                  (''mem_map'', Suc (Suc (next_addr s)))]) # B,
                EthernetSoC_store pc pi pm s)"
proof -
  let ?s1 = "s\<lparr>objs := (objs s)(next_addr s := class_map EthernetSoC_csr_own (objs s pc)),
                 next_addr := Suc (next_addr s)\<rparr>"
  let ?s2 = "?s1\<lparr>objs := (objs ?s1)
                   (next_addr ?s1 := class_map EthernetSoC_interrupt_own (objs ?s1 pi)),
                 next_addr := Suc (next_addr ?s1)\<rparr>"
  have 1: "map_statements ''csr_map'' EthernetSoC_csr_own B ([], s) =
      Inr ([(''csr_map'', next_addr s)], ?s1)"
    using map_statements_run [OF assms(1,2), of EthernetSoC_csr_own "[]"] by simp
  have 2: "map_statements ''interrupt_map'' EthernetSoC_interrupt_own B
      ([(''csr_map'', next_addr s)], ?s1) =
      Inr ([(''csr_map'', next_addr s), (''interrupt_map'', Suc (next_addr s))], ?s2)"
    using map_statements_run [OF assms(3), of ?s1 EthernetSoC_interrupt_own
        "[(''csr_map'', next_addr s)]"] assms(4) by simp
  have 3: "map_statements ''mem_map'' EthernetSoC_mem_own B
      ([(''csr_map'', next_addr s), (''interrupt_map'', Suc (next_addr s))], ?s2) =
      Inr ([(''csr_map'', next_addr s), (''interrupt_map'', Suc (next_addr s)),
            (''mem_map'', Suc (Suc (next_addr s)))],
           EthernetSoC_store pc pi pm s)"
    using map_statements_run [OF assms(5), of ?s2 EthernetSoC_mem_own
        "[(''csr_map'', next_addr s), (''interrupt_map'', Suc (next_addr s))]"] assms(2,4,6)
    by (simp add: EthernetSoC_store_def fun_upd_twist)
  show ?thesis
    unfolding EthernetSoC_class_def
    by (simp only: 1 2 3 bind_sum_def sum.case prod.case)
qed

lemma EthernetSoC_store_frame:
  "p < next_addr s \<Longrightarrow> objs (EthernetSoC_store pc pi pm s) p = objs s p"
  by (simp add: EthernetSoC_store_def)

text \<open>
  Claim C10. Let the three maps of \<^verbatim>\<open>BaseSoC\<close> be objects of the store. The class
  body of \<^verbatim>\<open>EthernetSoC\<close> then runs without error, \<^verbatim>\<open>BaseSoC\<close> is still the class it
  was, and its three maps are the same dictionaries as before, so every name in them
  resolves as before. The maps of \<^verbatim>\<open>EthernetSoC\<close> are three new objects, each holding
  the class's own entries with the base map's entries stored over them.
  \<^verbatim>\<open>EthernetSoC.__init__\<close> only reads \<^verbatim>\<open>mem_map\<close>.
\<close>

theorem base_maps_unchanged:
  assumes "class_getattr BaseSoC ''csr_map'' = Inr pc" and "pc < next_addr s"
    and "class_getattr BaseSoC ''interrupt_map'' = Inr pi" and "pi < next_addr s"
    and "class_getattr BaseSoC ''mem_map'' = Inr pm" and "pm < next_addr s"
  shows "\<exists>EthernetSoC s'.
           EthernetSoC_class BaseSoC s = Inr (EthernetSoC, s') \<and>
           tl EthernetSoC = BaseSoC \<and>
           objs s' pc = objs s pc \<and> objs s' pi = objs s pi \<and> objs s' pm = objs s pm \<and>
           (\<forall>n. getitem (objs s' pc) n = getitem (objs s pc) n) \<and>
           (\<forall>n. getitem (objs s' pi) n = getitem (objs s pi) n) \<and>
           (\<forall>n. getitem (objs s' pm) n = getitem (objs s pm) n) \<and>
           class_getattr EthernetSoC ''csr_map'' = Inr (next_addr s) \<and>
           class_getattr EthernetSoC ''interrupt_map'' = Inr (next_addr s + 1) \<and>
           class_getattr EthernetSoC ''mem_map'' = Inr (next_addr s + 2) \<and>
           objs s' (next_addr s) = class_map EthernetSoC_csr_own (objs s pc) \<and>
           objs s' (next_addr s + 1) = class_map EthernetSoC_interrupt_own (objs s pi) \<and>
           objs s' (next_addr s + 2) = class_map EthernetSoC_mem_own (objs s pm)"
proof -
  let ?E = "(''EthernetSoC'',
             [(''csr_map'', next_addr s), (''interrupt_map'', Suc (next_addr s)),
              (''mem_map'', Suc (Suc (next_addr s)))]) # BaseSoC"
  let ?s' = "EthernetSoC_store pc pi pm s"
  have run: "EthernetSoC_class BaseSoC s = Inr (?E, ?s')"
    using assms by (rule EthernetSoC_class_run)
  have frame: "objs ?s' pc = objs s pc" "objs ?s' pi = objs s pi" "objs ?s' pm = objs s pm"
    using assms(2,4,6) by (simp_all add: EthernetSoC_store_frame)
  have attrs: "class_getattr ?E ''csr_map'' = Inr (next_addr s)"
    "class_getattr ?E ''interrupt_map'' = Inr (next_addr s + 1)"
    "class_getattr ?E ''mem_map'' = Inr (next_addr s + 2)"
    by simp_all
  have fresh: "objs ?s' (next_addr s) = class_map EthernetSoC_csr_own (objs s pc)"
    "objs ?s' (next_addr s + 1) = class_map EthernetSoC_interrupt_own (objs s pi)"
    "objs ?s' (next_addr s + 2) = class_map EthernetSoC_mem_own (objs s pm)"
    by (simp_all add: EthernetSoC_store_def)
  have "tl ?E = BaseSoC" by simp
  with run frame attrs fresh show ?thesis
    by (intro exI [of _ ?E] exI [of _ ?s']) (simp only: simp_thms)
qed

theorem base_maps_unchanged_witness:
  "class_getattr example_BaseSoC ''csr_map'' = Inr 1 \<and> 1 < next_addr example_store \<and>
   class_getattr example_BaseSoC ''interrupt_map'' = Inr 2 \<and> 2 < next_addr example_store \<and>
   class_getattr example_BaseSoC ''mem_map'' = Inr 0 \<and> 0 < next_addr example_store \<and>
   (\<exists>EthernetSoC s'.
      EthernetSoC_class example_BaseSoC example_store = Inr (EthernetSoC, s') \<and>
      objs s' 1 = BaseSoC_csr_own \<and>
      getitem (objs s' 1) ''uart0'' = Inr 18 \<and>
      getitem (objs s' 2) ''uart0'' = Inr 3 \<and>
      getitem (objs s' 0) ''rom'' = Inr 0)"
proof -
  have c: "class_getattr example_BaseSoC ''csr_map'' = Inr 1"
    by (simp add: example_BaseSoC_def)
  have i: "class_getattr example_BaseSoC ''interrupt_map'' = Inr 2"
    by (simp add: example_BaseSoC_def)
  have m: "class_getattr example_BaseSoC ''mem_map'' = Inr 0"
    by (simp add: example_BaseSoC_def)
  have a1: "1 < next_addr example_store" and a2: "2 < next_addr example_store"
    and a0: "0 < next_addr example_store"
    by (simp_all add: example_store_def)
  have before: "objs example_store 1 = BaseSoC_csr_own"
    "getitem (objs example_store 1) ''uart0'' = Inr 18"
    "getitem (objs example_store 2) ''uart0'' = Inr 3"
    "getitem (objs example_store 0) ''rom'' = Inr 0"
    by (simp_all add: example_store_def getitem_def BaseSoC_csr_own_def
        BaseSoC_interrupt_own_def)
  from base_maps_unchanged [OF c a1 i a2 m a0] obtain E s' where
    "EthernetSoC_class example_BaseSoC example_store = Inr (E, s')"
    "objs s' 1 = objs example_store 1"
    "\<forall>n. getitem (objs s' 1) n = getitem (objs example_store 1) n"
    "\<forall>n. getitem (objs s' 2) n = getitem (objs example_store 2) n"
    "\<forall>n. getitem (objs s' 0) n = getitem (objs example_store 0) n"
    by blast
  with before have "\<exists>E s'.
      EthernetSoC_class example_BaseSoC example_store = Inr (E, s') \<and>
      objs s' 1 = BaseSoC_csr_own \<and>
      getitem (objs s' 1) ''uart0'' = Inr 18 \<and>
      getitem (objs s' 2) ''uart0'' = Inr 3 \<and>
      getitem (objs s' 0) ''rom'' = Inr 0"
    by auto
  with c i m a0 a1 a2 show ?thesis by blast
qed

end
